theory Spec2Isabelle
  imports Main "HOL-Library.Sublist"
begin

section \<open>Values, errors and promises\<close>

text \<open>
  The engine of \<^verbatim>\<open>lib/index.js\<close> moves JavaScript values around without looking into
  them, with one exception: \<^verbatim>\<open>results.concat(result)\<close> treats an array argument
  differently from every other value. The value type therefore separates arrays from the
  rest. Numbers stand for integer-valued numbers only.
\<close>

datatype jsval =
    VUndefined
  | VNull
  | VBool bool
  | VNum int
  | VStr string
  | VArr "jsval list"
  | VObj "(string \<times> jsval) list"

text \<open>
  What a \<^verbatim>\<open>throw\<close> or a rejection carries: \<^verbatim>\<open>new Error(msg)\<close>, the \<^verbatim>\<open>TypeError\<close> the
  language raises itself, or any value a runnable chooses to throw.
\<close>

datatype error =
    Error string
  | TypeError string
  | Thrown jsval

text \<open>
  A promise is represented by the way it ends: fulfilled with a value, rejected with an
  error, or never settled.
\<close>

datatype 'a promise =
    Fulfilled 'a
  | Rejected error
  | Pending

text \<open>
  What one call of a task function does: throw synchronously, return a plain value, or
  return a promise.
\<close>

datatype run_result =
    Throw error
  | Return jsval
  | ReturnPromise "jsval promise"

text \<open>
  Returning \<open>r\<close> from a \<^verbatim>\<open>then\<close> callback, or passing it to \<^verbatim>\<open>resolve\<close> inside a
  \<^verbatim>\<open>new Promise\<close> executor: a throw rejects, a plain value fulfills, a promise is adopted.
\<close>

fun settle :: "run_result \<Rightarrow> jsval promise" where
  "settle (Throw e) = Rejected e"
| "settle (Return v) = Fulfilled v"
| "settle (ReturnPromise p) = p"

section \<open>The registry\<close>

type_synonym options = "string \<rightharpoonup> jsval"

text \<open>
  A \<^verbatim>\<open>TaskEngine\<close> object is given by two values: its identity, which is what a task
  function can compare its second argument with (the repository's tests do, with
  \<^verbatim>\<open>assert.strictEqual(te, tEngine)\<close>), and its field \<^verbatim>\<open>this.tasks\<close>.
\<close>

type_synonym engine_ref = nat

text \<open>
  A task function receives \<^verbatim>\<open>(options, engine, results)\<close>. It is modelled by what it
  does with the three arguments; it does not call back into the engine.
\<close>

type_synonym runnable = "options \<Rightarrow> engine_ref \<Rightarrow> jsval list \<Rightarrow> run_result"

text \<open>An entry of a dependencies array: a task name, or \<^verbatim>\<open>{ task, options? }\<close>.\<close>

datatype dependency =
    DepName string
  | DepSpec string "options option"

record task =
  run :: runnable
  dependencies :: "dependency list"

text \<open>\<^verbatim>\<open>this.tasks\<close>, an object without prototype: own keys only.\<close>

type_synonym registry = "string \<rightharpoonup> task"

definition canRunTask :: "registry \<Rightarrow> string \<Rightarrow> bool" where
  "canRunTask tasks taskName = (case tasks taskName of None \<Rightarrow> False | Some _ \<Rightarrow> True)"

section \<open>Execution traces\<close>

text \<open>
  A run is observed through the calls the engine makes: \<open>Resolve n opts\<close> for a call
  \<^verbatim>\<open>this.runTask(n, opts)\<close>, and \<open>Invoke n opts engine rs\<close> for a call
  \<^verbatim>\<open>task.run(opts, this, rs)\<close> of the task function registered under \<open>n\<close>, where
  \<open>engine\<close> is the identity of \<^verbatim>\<open>this\<close>.
\<close>

datatype event =
    Resolve string options
  | Invoke string options engine_ref "jsval list"

section \<open>runTaskWithoutDependencies\<close>

text \<open>
  The class declares \<^verbatim>\<open>addTask\<close>, \<^verbatim>\<open>addTasksFromObject\<close>, \<^verbatim>\<open>t\<close>, \<^verbatim>\<open>getTaskNames\<close>,
  \<^verbatim>\<open>canRunTask\<close>, \<^verbatim>\<open>runTask\<close> and \<^verbatim>\<open>runTaskWithoutDependencies\<close>. It has no member
  \<^verbatim>\<open>reject\<close>, so the call expression \<^verbatim>\<open>this.reject(x)\<close> throws a \<^verbatim>\<open>TypeError\<close>
  whatever \<open>x\<close> is.
\<close>

definition reject :: "error \<Rightarrow> error + jsval promise" where
  "reject error = Inl (TypeError ''this.reject is not a function'')"

text \<open>\<^verbatim>\<open>p.catch(handler)\<close>: the handler runs on rejection only; its throw rejects.\<close>

fun catch :: "jsval promise \<Rightarrow> (error \<Rightarrow> error + jsval promise) \<Rightarrow> jsval promise" where
  "catch (Fulfilled v) handler = Fulfilled v"
| "catch (Rejected e) handler = (case handler e of Inl thrown \<Rightarrow> Rejected thrown | Inr p \<Rightarrow> p)"
| "catch Pending handler = Pending"

text \<open>
  The result is the trace together with either the error thrown synchronously by the call
  (\<open>Inl\<close>) or the promise it returns (\<open>Inr\<close>). An omitted \<^verbatim>\<open>options\<close> argument is the
  empty mapping.
\<close>

definition runTaskWithoutDependencies ::
    "engine_ref \<Rightarrow> registry \<Rightarrow> string \<Rightarrow> options \<Rightarrow> event list \<times> (error + jsval promise)" where
  "runTaskWithoutDependencies engine tasks taskName options =
     (case tasks taskName of
        Some task \<Rightarrow>
          ([Invoke taskName options engine []],
           Inr (catch (settle (run task options engine [])) (\<lambda>error. reject error)))
      | None \<Rightarrow>
          ([], reject (Error (''Task '' @ taskName @ '' does not exist''))))"

section \<open>runTask\<close>

text \<open>\<^verbatim>\<open>if (typeof d === 'string') d = { task: d }\<close>, then \<^verbatim>\<open>d.task\<close> and \<^verbatim>\<open>d.options\<close>.\<close>

fun dep_task :: "dependency \<Rightarrow> string" where
  "dep_task (DepName s) = s"
| "dep_task (DepSpec s ov) = s"

fun dep_options :: "dependency \<Rightarrow> options option" where
  "dep_options (DepName s) = None"
| "dep_options (DepSpec s ov) = ov"

text \<open>\<^verbatim>\<open>Object.assign(target, ...sources)\<close>: later sources overwrite earlier keys.\<close>

definition object_assign :: "options \<Rightarrow> options list \<Rightarrow> options" where
  "object_assign target sources = foldl (++) target sources"

text \<open>\<^verbatim>\<open>Object.assign({}, options, d.options || {})\<close>\<close>

definition depOptions :: "options \<Rightarrow> dependency \<Rightarrow> options" where
  "depOptions options d =
     object_assign Map.empty
       [options, (case dep_options d of None \<Rightarrow> Map.empty | Some ov \<Rightarrow> ov)]"

text \<open>\<^verbatim>\<open>results.concat(result)\<close>: an array argument is spread, any other value is appended.\<close>

fun js_concat :: "jsval list \<Rightarrow> jsval \<Rightarrow> jsval list" where
  "js_concat results (VArr xs) = results @ xs"
| "js_concat results result = results @ [result]"

text \<open>
  A run, or a chain in progress: the trace so far and the state of the promise. The state
  is \<open>None\<close> where the model stopped following nested calls (see \<open>runTask\<close> below);
  the trace then holds the events up to that point.
\<close>

type_synonym 'a run = "event list \<times> 'a promise option"

text \<open>
  \<^verbatim>\<open>p.then(results => this.runTask(d.task, depOptions).then(result => results.concat(result)))\<close>,
  where the second argument is the run of \<^verbatim>\<open>this.runTask(d.task, depOptions)\<close>. The
  callback, and with it that run, happens only when \<open>p\<close> fulfills.
\<close>

fun then_runTask :: "jsval list run \<Rightarrow> jsval run \<Rightarrow> jsval list run" where
  "then_runTask (tr, Some (Fulfilled results)) (tr', sub) =
     (tr @ tr',
      case sub of
        Some (Fulfilled result) \<Rightarrow> Some (Fulfilled (js_concat results result))
      | Some (Rejected e) \<Rightarrow> Some (Rejected e)
      | Some Pending \<Rightarrow> Some Pending
      | None \<Rightarrow> None)"
| "then_runTask (tr, Some (Rejected e)) sub = (tr, Some (Rejected e))"
| "then_runTask (tr, Some Pending) sub = (tr, Some Pending)"
| "then_runTask (tr, None) sub = (tr, None)"

text \<open>\<^verbatim>\<open>p.then(() => { throw error })\<close>\<close>

fun then_throw :: "jsval list run \<Rightarrow> error \<Rightarrow> jsval list run" where
  "then_throw (tr, Some (Fulfilled results)) error = (tr, Some (Rejected error))"
| "then_throw (tr, Some (Rejected e)) error = (tr, Some (Rejected e))"
| "then_throw (tr, Some Pending) error = (tr, Some Pending)"
| "then_throw (tr, None) error = (tr, None)"

text \<open>
  The callback of \<^verbatim>\<open>task.dependencies.reduce\<close>; \<open>runTask'\<close> is \<^verbatim>\<open>this.runTask\<close>.
  The source evaluates \<^verbatim>\<open>this.canRunTask(d.task)\<close> and the merged options while
  \<^verbatim>\<open>reduce\<close> builds the chain, before any dependency runs; the registry and the
  options are the same values throughout a run of the model, so the result is the same
  when they are evaluated as the chain is followed.
\<close>

definition reducer ::
    "(string \<Rightarrow> options \<Rightarrow> jsval run) \<Rightarrow> registry \<Rightarrow> options \<Rightarrow>
     jsval list run \<Rightarrow> dependency \<Rightarrow> jsval list run" where
  "reducer runTask' tasks options p d =
     (if canRunTask tasks (dep_task d) then
        then_runTask p (runTask' (dep_task d) (depOptions options d))
      else
        then_throw p (Error (''Dependent task '' @ dep_task d @ '' not found'')))"

text \<open>
  \<^verbatim>\<open>.then(results => task.run(options, this, results.slice()))\<close>, the last link of the
  chain; the slice is a copy with the same elements.
\<close>

fun then_run :: "jsval list run \<Rightarrow> string \<Rightarrow> task \<Rightarrow> options \<Rightarrow> engine_ref \<Rightarrow> jsval run" where
  "then_run (tr, Some (Fulfilled results)) taskName task options engine =
     (tr @ [Invoke taskName options engine results],
      Some (settle (run task options engine results)))"
| "then_run (tr, Some (Rejected e)) taskName task options engine = (tr, Some (Rejected e))"
| "then_run (tr, Some Pending) taskName task options engine = (tr, Some Pending)"
| "then_run (tr, None) taskName task options engine = (tr, None)"

text \<open>
  \<^verbatim>\<open>runTask\<close> calls itself for every dependency and nothing bounds the depth (a task may
  depend on itself), so the model counts the nesting: \<open>runTask n\<close> follows at most \<open>n\<close>
  nested calls, the outermost one included. A call it does not follow contributes no
  event and leaves the state \<open>None\<close>, so the trace of \<open>runTask n\<close> is the part of the run
  within that depth, up to the first call that is not followed. An omitted
  \<^verbatim>\<open>options\<close> argument is the empty mapping.
\<close>

primrec runTask :: "nat \<Rightarrow> engine_ref \<Rightarrow> registry \<Rightarrow> string \<Rightarrow> options \<Rightarrow> jsval run" where
  "runTask 0 engine tasks taskName options = ([], None)"
| "runTask (Suc n) engine tasks taskName options =
     (case tasks taskName of
        Some task \<Rightarrow>
          then_run
            (foldl (reducer (runTask n engine tasks) tasks options)
               ([Resolve taskName options], Some (Fulfilled []))
               (dependencies task))
            taskName task options engine
      | None \<Rightarrow>
          ([Resolve taskName options],
           Some (Rejected (Error (''Task '' @ taskName @ '' does not exist'')))))"

section \<open>addTask\<close>

text \<open>
  The first argument of \<^verbatim>\<open>addTask\<close>: \<^verbatim>\<open>undefined\<close> (also when absent), \<^verbatim>\<open>null\<close>, a
  function with its intrinsic \<^verbatim>\<open>name\<close> (empty for an anonymous one), or any other value,
  with what its \<^verbatim>\<open>name\<close> property reads as (empty when it has none).
\<close>

datatype task_arg =
    TUndefined
  | TNull
  | TFunction string runnable
  | TOther string

text \<open>The second argument: absent, a string, or an array (then it is the dependencies).\<close>

datatype name_arg =
    NUndefined
  | NString string
  | NArray "dependency list"

text \<open>
  The expression \<^verbatim>\<open>task.name\<close>. Reading a property of \<^verbatim>\<open>undefined\<close> or \<^verbatim>\<open>null\<close> throws;
  the text of the message depends on the JavaScript engine.
\<close>

fun task_name :: "task_arg \<Rightarrow> error + string" where
  "task_name TUndefined = Inl (TypeError ''Cannot read property name of undefined'')"
| "task_name TNull = Inl (TypeError ''Cannot read property name of null'')"
| "task_name (TFunction nm f) = Inr nm"
| "task_name (TOther nm) = Inr nm"

text \<open>
  \<^verbatim>\<open>addTask (task, taskName, dependencies = [])\<close>. A name is kept as a string, the empty
  string standing for every falsy name. The result is the error thrown, or the registry
  after the write.
\<close>

definition addTask ::
    "task_arg \<Rightarrow> name_arg \<Rightarrow> dependency list option \<Rightarrow> registry \<Rightarrow> error + registry" where
  "addTask task taskName deps0 tasks =
     (let deps = (case deps0 of None \<Rightarrow> [] | Some ds \<Rightarrow> ds) in
      case (case taskName of
              NArray ds \<Rightarrow>
                (case task_name task of Inl e \<Rightarrow> Inl e | Inr nm \<Rightarrow> Inr (ds, nm))
            | NString s \<Rightarrow> Inr (deps, s)
            | NUndefined \<Rightarrow> Inr (deps, [])) of
        Inl e \<Rightarrow> Inl e
      | Inr (deps, taskName) \<Rightarrow>
          (case (if taskName = [] then task_name task else Inr taskName) of
             Inl e \<Rightarrow> Inl e
           | Inr taskName \<Rightarrow>
               (case task of
                  TFunction nm f \<Rightarrow>
                    if taskName \<noteq> [] then
                      Inr (tasks(taskName \<mapsto> \<lparr>run = f, dependencies = deps\<rparr>))
                    else
                      Inl (Error (''Task function must be a named function or '' @
                                  ''an explicit task name must be passed in''))
                | _ \<Rightarrow> Inl (Error ''Task must be a function''))))"

section \<open>Reading a trace\<close>

text \<open>\<open>invokes n e\<close>: the event \<open>e\<close> is a call of the task function registered under \<open>n\<close>.\<close>

fun invokes :: "string \<Rightarrow> event \<Rightarrow> bool" where
  "invokes n (Invoke m opts engine rs) = (m = n)"
| "invokes n (Resolve m opts) = False"

text \<open>\<^verbatim>\<open>Array.isArray(v)\<close>\<close>

fun is_array :: "jsval \<Rightarrow> bool" where
  "is_array (VArr xs) = True"
| "is_array v = False"

section \<open>The merge of the specification\<close>

text \<open>
  The specification's \<^verbatim>\<open>merge(inheritedOptions, dependency.optionsOverride)\<close>, in its
  words: a mapping in which the override's keys take precedence, and the inherited
  options when there is no override. It is what \<open>depOptions\<close>, the code's
  \<^verbatim>\<open>Object.assign\<close>, is compared with.
\<close>

definition spec_merge :: "options \<Rightarrow> options option \<Rightarrow> options" where
  "spec_merge inherited override =
     (case override of
        None \<Rightarrow> inherited
      | Some ov \<Rightarrow> (\<lambda>k. case ov k of Some v \<Rightarrow> Some v | None \<Rightarrow> inherited k))"

section \<open>Task functions and registries used as concrete inputs\<close>

text \<open>
  \<^verbatim>\<open>function () { return v }\<close>, \<^verbatim>\<open>function () { throw e }\<close>,
  \<^verbatim>\<open>function () { return Promise.reject(e) }\<close> and
  \<^verbatim>\<open>function (options, engine, results) { return results }\<close>.
\<close>

definition returning :: "jsval \<Rightarrow> runnable" where
  "returning v options engine results = Return v"

definition throwing :: "error \<Rightarrow> runnable" where
  "throwing e options engine results = Throw e"

definition rejecting :: "error \<Rightarrow> runnable" where
  "rejecting e options engine results = ReturnPromise (Rejected e)"

definition collecting :: runnable where
  "collecting options engine results = Return (VArr results)"

text \<open>
  A task function in the manner of \<^verbatim>\<open>taskA\<close> of the repository's tests: it asserts that
  its second argument is the engine \<open>e\<close> and that its results are empty, and returns
  \<^verbatim>\<open>options.message\<close>.
\<close>

definition asserting :: "engine_ref \<Rightarrow> runnable" where
  "asserting e options engine results =
     (if engine = e \<and> results = [] then
        Return (case options ''message'' of None \<Rightarrow> VUndefined | Some v \<Rightarrow> v)
      else Throw (Error ''AssertionError''))"

definition leaf :: "runnable \<Rightarrow> task" where
  "leaf f = \<lparr>run = f, dependencies = []\<rparr>"

text \<open>The engine \<^verbatim>\<open>tEngine\<close> and the options \<^verbatim>\<open>{ message: 'hi' }\<close> of the repository's tests.\<close>

definition tEngine :: engine_ref where
  "tEngine = 0"

definition hi :: options where
  "hi = [''message'' \<mapsto> VStr ''hi'']"

text \<open>
  \<^verbatim>\<open>A\<close> depends on \<^verbatim>\<open>[ 'B', 'C' ]\<close>; \<^verbatim>\<open>B\<close> and \<^verbatim>\<open>C\<close> have no dependencies and run the
  given functions.
\<close>

definition tasks_ABC :: "runnable \<Rightarrow> runnable \<Rightarrow> registry" where
  "tasks_ABC rB rC =
     [''A'' \<mapsto> \<lparr>run = collecting, dependencies = [DepName ''B'', DepName ''C'']\<rparr>,
      ''B'' \<mapsto> leaf rB,
      ''C'' \<mapsto> leaf rC]"

text \<open>
  The registry of the repository's test of \<^verbatim>\<open>runTaskWithoutDependencies\<close>: \<^verbatim>\<open>A\<close>
  declares two dependencies, and every task function but \<^verbatim>\<open>A\<close>'s fails when it is
  called.
\<close>

definition tasks_direct :: registry where
  "tasks_direct =
     [''A'' \<mapsto> \<lparr>run = asserting tEngine,
                dependencies = [DepSpec ''B'' (Some [''age'' \<mapsto> VNum 34]), DepName ''C'']\<rparr>,
      ''B'' \<mapsto> leaf (throwing (Error ''AssertionError'')),
      ''C'' \<mapsto> leaf (throwing (Error ''AssertionError''))]"

text \<open>
  \<^verbatim>\<open>A\<close> depends on \<^verbatim>\<open>[ { task: 'B', options: { age: 34 } }, 'C' ]\<close>, as in the
  repository's test of dependent tasks.
\<close>

definition tasks_override :: registry where
  "tasks_override =
     [''A'' \<mapsto> \<lparr>run = collecting,
                dependencies = [DepSpec ''B'' (Some [''age'' \<mapsto> VNum 34]), DepName ''C'']\<rparr>,
      ''B'' \<mapsto> leaf (returning (VStr ''B'')),
      ''C'' \<mapsto> leaf (returning (VStr ''C''))]"

text \<open>Two tasks that depend on \<^verbatim>\<open>lint\<close>, which nobody registered.\<close>

definition tasks_missing :: registry where
  "tasks_missing =
     [''build'' \<mapsto> \<lparr>run = returning (VStr ''built''), dependencies = [DepName ''lint'']\<rparr>,
      ''deploy'' \<mapsto> \<lparr>run = returning (VStr ''deployed''), dependencies = [DepName ''lint'']\<rparr>]"

text \<open>
  \<^verbatim>\<open>P\<close> depends on \<^verbatim>\<open>[ 'B', 'D', 'C' ]\<close>; \<^verbatim>\<open>D\<close> is not registered, \<^verbatim>\<open>B\<close> runs the given
  function.
\<close>

definition tasks_gap :: "runnable \<Rightarrow> registry" where
  "tasks_gap rB =
     [''P'' \<mapsto> \<lparr>run = collecting, dependencies = [DepName ''B'', DepName ''D'', DepName ''C'']\<rparr>,
      ''B'' \<mapsto> leaf rB,
      ''C'' \<mapsto> leaf (returning (VStr ''C''))]"

text \<open>
  The diamond: \<^verbatim>\<open>A\<close> depends on \<^verbatim>\<open>[ 'B', 'C' ]\<close>, and \<^verbatim>\<open>B\<close> and \<^verbatim>\<open>C\<close> each depend on
  \<^verbatim>\<open>D\<close>, with their own option \<^verbatim>\<open>side\<close>; \<^verbatim>\<open>D\<close> runs the given function.
\<close>

definition diamond :: "runnable \<Rightarrow> registry" where
  "diamond rD =
     [''A'' \<mapsto> \<lparr>run = collecting, dependencies = [DepName ''B'', DepName ''C'']\<rparr>,
      ''B'' \<mapsto> \<lparr>run = collecting,
                dependencies = [DepSpec ''D'' (Some [''side'' \<mapsto> VStr ''left''])]\<rparr>,
      ''C'' \<mapsto> \<lparr>run = collecting,
                dependencies = [DepSpec ''D'' (Some [''side'' \<mapsto> VStr ''right''])]\<rparr>,
      ''D'' \<mapsto> leaf rD]"

section \<open>The options of a dependency\<close>

lemma depOptions_spec_merge: "depOptions opts d = spec_merge opts (dep_options d)"
  by (auto simp: depOptions_def object_assign_def spec_merge_def map_add_def
        split: option.splits)

lemma depOptions_no_override: "dep_options d = None \<Longrightarrow> depOptions opts d = opts"
  by (simp add: depOptions_def object_assign_def)

lemma depOptions_DepName: "depOptions opts (DepName s) = opts"
  by (simp add: depOptions_def object_assign_def)

lemma depOptions_DepSpec: "depOptions opts (DepSpec s (Some ov)) = opts ++ ov"
  by (simp add: depOptions_def object_assign_def)

section \<open>The dependency chain\<close>

text \<open>Once the chain is rejected, pending or lost, the remaining callbacks are skipped.\<close>

lemma foldl_reducer_None: "foldl (reducer r tasks opts) (tr, None) ds = (tr, None)"
  by (induction ds) (simp_all add: reducer_def)

lemma foldl_reducer_Rejected:
  "foldl (reducer r tasks opts) (tr, Some (Rejected e)) ds = (tr, Some (Rejected e))"
  by (induction ds) (simp_all add: reducer_def)

lemma foldl_reducer_Pending:
  "foldl (reducer r tasks opts) (tr, Some Pending) ds = (tr, Some Pending)"
  by (induction ds) (simp_all add: reducer_def)

text \<open>
  When every dependency of \<open>ds\<close> is registered and its run fulfills, the chain holds the
  runs' traces one after the other and the values put together by \<^verbatim>\<open>concat\<close>.
\<close>

lemma foldl_reducer_resolved:
  assumes "list_all2 (\<lambda>d s. canRunTask tasks (dep_task d) \<and>
             r (dep_task d) (depOptions opts d) = (fst s, Some (Fulfilled (snd s)))) ds subs"
  shows "foldl (reducer r tasks opts) (tr, Some (Fulfilled rs)) ds =
         (tr @ concat (map fst subs), Some (Fulfilled (foldl js_concat rs (map snd subs))))"
  using assms
  by (induction arbitrary: tr rs rule: list_all2_induct) (simp_all add: reducer_def)

lemma runTask_Fulfilled_registered:
  "runTask n engine tasks taskName opts = (tr, Some (Fulfilled v)) \<Longrightarrow>
   canRunTask tasks taskName"
  by (cases n) (auto simp: canRunTask_def split: option.splits)

lemma resolved_registered:
  assumes "list_all2 (\<lambda>d s. runTask n engine tasks (dep_task d) (depOptions opts d) =
                           (fst s, Some (Fulfilled (snd s)))) ds subs"
  shows "list_all2 (\<lambda>d s. canRunTask tasks (dep_task d) \<and>
          runTask n engine tasks (dep_task d) (depOptions opts d) =
            (fst s, Some (Fulfilled (snd s))))
          ds subs"
  using assms by (rule list_all2_mono) (auto dest: runTask_Fulfilled_registered)

text \<open>A trace only grows along the chain, and every run that is followed starts with its own call.\<close>

lemma then_runTask_fst:
  "fst (then_runTask (tr, p) sub) = (case p of Some (Fulfilled rs) \<Rightarrow> tr @ fst sub | _ \<Rightarrow> tr)"
  by (cases sub) (simp split: option.splits promise.splits)

lemma then_throw_fst: "fst (then_throw (tr, p) e) = tr"
proof (cases p)
  case None
  then show ?thesis by simp
next
  case (Some a)
  then show ?thesis by (cases a) simp_all
qed

lemma reducer_prefix: "prefix tr (fst (reducer r tasks opts (tr, p) d))"
  by (simp add: reducer_def then_runTask_fst then_throw_fst split: option.splits promise.splits)

lemma foldl_reducer_prefix: "prefix tr (fst (foldl (reducer r tasks opts) (tr, p) ds))"
proof (induction ds arbitrary: tr p)
  case Nil
  show ?case by simp
next
  case (Cons d ds)
  obtain tr1 p1 where c: "reducer r tasks opts (tr, p) d = (tr1, p1)"
    by (cases "reducer r tasks opts (tr, p) d")
  have "prefix tr tr1"
    using reducer_prefix [of tr r tasks opts p d] c by simp
  moreover have "prefix tr1 (fst (foldl (reducer r tasks opts) (tr1, p1) ds))"
    by (rule Cons.IH)
  ultimately show ?case
    using c by (simp add: prefix_order.trans)
qed

lemma then_run_prefix: "prefix tr (fst (then_run (tr, p) taskName task opts engine))"
proof -
  have "fst (then_run (tr, p) taskName task opts engine) =
        (case p of
           Some (Fulfilled rs) \<Rightarrow> tr @ [Invoke taskName opts engine rs]
         | _ \<Rightarrow> tr)"
    by (simp split: option.splits promise.splits)
  then show ?thesis
    by (simp split: option.splits promise.splits)
qed

lemma runTask_Suc_registered:
  "tasks taskName = Some task \<Longrightarrow>
   runTask (Suc n) engine tasks taskName opts =
     then_run
       (foldl (reducer (runTask n engine tasks) tasks opts)
          ([Resolve taskName opts], Some (Fulfilled [])) (dependencies task))
       taskName task opts engine"
  by simp

lemma runTask_starts:
  "prefix [Resolve taskName opts] (fst (runTask (Suc n) engine tasks taskName opts))"
proof (cases "tasks taskName")
  case None
  then show ?thesis by simp
next
  case (Some task)
  let ?c = "foldl (reducer (runTask n engine tasks) tasks opts)
             ([Resolve taskName opts], Some (Fulfilled [])) (dependencies task)"
  obtain tr1 p1 where c: "?c = (tr1, p1)" by (cases ?c)
  have "prefix [Resolve taskName opts] tr1"
    using foldl_reducer_prefix
      [of "[Resolve taskName opts]" "runTask n engine tasks" tasks opts "Some (Fulfilled [])"
          "dependencies task"] c
    by simp
  moreover have "prefix tr1 (fst (then_run (tr1, p1) taskName task opts engine))"
    by (rule then_run_prefix)
  ultimately show ?thesis
    using Some c by (simp add: prefix_order.trans)
qed

section \<open>What the results array holds\<close>

text \<open>
  When every dependency of a registered task resolves, the task function is invoked once,
  after the dependencies' runs in declaration order, with the options of the call, the
  engine, and the array that \<^verbatim>\<open>concat\<close> builds from the dependencies' values. That array
  is the list of the values when none of them is an array.
\<close>

lemma runTask_all_resolved:
  assumes "tasks taskName = Some task"
    and "list_all2 (\<lambda>d s. runTask n engine tasks (dep_task d) (depOptions opts d) =
                           (fst s, Some (Fulfilled (snd s)))) (dependencies task) subs"
  shows "runTask (Suc n) engine tasks taskName opts =
         (Resolve taskName opts # concat (map fst subs) @
            [Invoke taskName opts engine (foldl js_concat [] (map snd subs))],
          Some (settle (run task opts engine (foldl js_concat [] (map snd subs)))))"
  using assms(1) foldl_reducer_resolved [OF resolved_registered [OF assms(2)]]
  by simp

lemma foldl_js_concat_plain:
  "\<forall>v \<in> set vs. \<not> is_array v \<Longrightarrow> foldl js_concat rs vs = rs @ vs"
proof (induction vs arbitrary: rs)
  case Nil
  then show ?case by simp
next
  case (Cons v vs)
  then show ?case by (cases v) simp_all
qed

section \<open>Claims about the results array\<close>

text \<open>
  Claim C1. When all declared dependencies of a task resolve, the results array passed to
  its task function should have one element per dependency, the k-th being the value of
  the k-th dependency, also when that value is an array. The code appends with
  \<^verbatim>\<open>results.concat(result)\<close>, which spreads an array value: with the single dependency
  \<^verbatim>\<open>B\<close> resolving to \<^verbatim>\<open>[1, 2]\<close>, the task function of \<^verbatim>\<open>A\<close> is invoked with the two
  results \<^verbatim>\<open>1\<close> and \<^verbatim>\<open>2\<close>, not with the one result \<^verbatim>\<open>[1, 2]\<close>.
\<close>

theorem results_spread_array_value:
  "runTask 2 tEngine
     [''A'' \<mapsto> \<lparr>run = collecting, dependencies = [DepName ''B'']\<rparr>,
      ''B'' \<mapsto> leaf (returning (VArr [VNum 1, VNum 2]))] ''A'' hi =
     ([Resolve ''A'' hi, Resolve ''B'' hi, Invoke ''B'' hi tEngine [],
       Invoke ''A'' hi tEngine [VNum 1, VNum 2]],
      Some (Fulfilled (VArr [VNum 1, VNum 2])))"
  by (simp add: numeral_2_eq_2 reducer_def canRunTask_def depOptions_DepName leaf_def
        returning_def collecting_def)

text \<open>
  Claim C3. With \<^verbatim>\<open>A\<close> depending on \<^verbatim>\<open>[B, C]\<close>, both without dependencies, the run of
  \<^verbatim>\<open>B\<close> is complete before the run of \<^verbatim>\<open>C\<close> starts, and the task function of \<^verbatim>\<open>A\<close>
  should receive \<^verbatim>\<open>[resultOfB, resultOfC]\<close>. The order holds in the trace below; the
  results do not: \<^verbatim>\<open>B\<close> resolves to \<^verbatim>\<open>['x', 'y']\<close>, \<^verbatim>\<open>C\<close> to \<^verbatim>\<open>'C'\<close>, and \<^verbatim>\<open>A\<close> is
  invoked with \<^verbatim>\<open>['x', 'y', 'C']\<close>, not with \<^verbatim>\<open>[['x', 'y'], 'C']\<close>.
\<close>

theorem results_of_B_and_C_spread:
  "runTask 2 tEngine
     (tasks_ABC (returning (VArr [VStr ''x'', VStr ''y''])) (returning (VStr ''C''))) ''A'' hi =
     ([Resolve ''A'' hi, Resolve ''B'' hi, Invoke ''B'' hi tEngine [],
       Resolve ''C'' hi, Invoke ''C'' hi tEngine [],
       Invoke ''A'' hi tEngine [VStr ''x'', VStr ''y'', VStr ''C'']],
      Some (Fulfilled (VArr [VStr ''x'', VStr ''y'', VStr ''C''])))"
  by (simp add: numeral_2_eq_2 tasks_ABC_def reducer_def canRunTask_def depOptions_DepName
        leaf_def returning_def collecting_def)

section \<open>Claims about runTaskWithoutDependencies\<close>

text \<open>
  Claim C2. When the task function throws \<open>e\<close> or returns a promise rejected with \<open>e\<close>,
  \<^verbatim>\<open>runTaskWithoutDependencies\<close> should reject with \<open>e\<close> itself. Its \<^verbatim>\<open>catch\<close> handler calls
  \<^verbatim>\<open>this.reject(error)\<close>, which does not exist: the promise is rejected with the
  \<^verbatim>\<open>TypeError\<close> of that call, and \<open>e\<close> is lost.
\<close>

theorem runTaskWithoutDependencies_replaces_error:
  "runTaskWithoutDependencies tEngine [''A'' \<mapsto> leaf (throwing (Error ''Nope''))] ''A'' hi =
     ([Invoke ''A'' hi tEngine []],
      Inr (Rejected (TypeError ''this.reject is not a function''))) \<and>
   runTaskWithoutDependencies tEngine [''A'' \<mapsto> leaf (rejecting (Error ''Nope''))] ''A'' hi =
     ([Invoke ''A'' hi tEngine []],
      Inr (Rejected (TypeError ''this.reject is not a function'')))"
  by (simp add: runTaskWithoutDependencies_def leaf_def throwing_def rejecting_def reject_def)

text \<open>
  Claim C7. For a name that is not registered, \<^verbatim>\<open>runTask\<close> and
  \<^verbatim>\<open>runTaskWithoutDependencies\<close> should both return a promise rejected with the error
  \<^verbatim>\<open>Task <name> does not exist\<close>, no task function being invoked. \<^verbatim>\<open>runTask\<close> does;
  \<^verbatim>\<open>runTaskWithoutDependencies\<close> returns no promise: the call \<^verbatim>\<open>this.reject(...)\<close> throws a
  \<^verbatim>\<open>TypeError\<close> synchronously.
\<close>

theorem runTaskWithoutDependencies_missing_throws:
  "runTaskWithoutDependencies tEngine Map.empty ''missing'' hi =
     ([], Inl (TypeError ''this.reject is not a function'')) \<and>
   runTask 1 tEngine Map.empty ''missing'' hi =
     ([Resolve ''missing'' hi], Some (Rejected (Error ''Task missing does not exist'')))"
  by (simp add: runTaskWithoutDependencies_def reject_def)

text \<open>
  Claim C10. For a registered task, whatever its declared dependencies,
  \<^verbatim>\<open>runTaskWithoutDependencies\<close> makes exactly one call: the task's own function, with the
  given options, the engine itself and an empty results array. What the call returns is
  what that one invocation gives: its value when it fulfills, pending when it never
  settles (when it fails, the error of the \<^verbatim>\<open>catch\<close> handler, see claim C2). Nothing
  else of the registry is consulted: in any registry \<open>tasks'\<close> that holds the same task
  function under the name, with any dependencies \<open>ds\<close> and any other entries, the call
  does the same.
\<close>

theorem runTaskWithoutDependencies_only_own:
  assumes "tasks taskName = Some task"
  shows "runTaskWithoutDependencies engine tasks taskName opts =
           ([Invoke taskName opts engine []],
            Inr (case settle (run task opts engine []) of
                   Fulfilled v \<Rightarrow> Fulfilled v
                 | Rejected e \<Rightarrow> Rejected (TypeError ''this.reject is not a function'')
                 | Pending \<Rightarrow> Pending)) \<and>
         (\<forall>tasks' ds. tasks' taskName = Some (task\<lparr>dependencies := ds\<rparr>) \<longrightarrow>
            runTaskWithoutDependencies engine tasks' taskName opts =
              runTaskWithoutDependencies engine tasks taskName opts)"
proof -
  have own: "runTaskWithoutDependencies engine tasks' taskName opts =
           ([Invoke taskName opts engine []],
            Inr (case settle (run task opts engine []) of
                   Fulfilled v \<Rightarrow> Fulfilled v
                 | Rejected e \<Rightarrow> Rejected (TypeError ''this.reject is not a function'')
                 | Pending \<Rightarrow> Pending))"
    if "tasks' taskName = Some (task\<lparr>dependencies := ds\<rparr>)" for tasks' ds
    using that
    by (cases "settle (run task opts engine [])")
       (simp_all add: runTaskWithoutDependencies_def reject_def)
  have "tasks taskName = Some (task\<lparr>dependencies := dependencies task\<rparr>)"
    using assms by simp
  then have "runTaskWithoutDependencies engine tasks taskName opts =
           ([Invoke taskName opts engine []],
            Inr (case settle (run task opts engine []) of
                   Fulfilled v \<Rightarrow> Fulfilled v
                 | Rejected e \<Rightarrow> Rejected (TypeError ''this.reject is not a function'')
                 | Pending \<Rightarrow> Pending))"
    by (rule own)
  with own show ?thesis by simp
qed

text \<open>
  The theorem at the registry of the repository's test, where \<^verbatim>\<open>A\<close> declares two
  dependencies whose functions fail when called: the one call is \<^verbatim>\<open>A\<close>'s function with
  \<^verbatim>\<open>{ message: 'hi' }\<close>, the engine and no results, its assertions pass and the call
  fulfills with \<^verbatim>\<open>'hi'\<close>; the same without the declared dependencies and the other tasks.
\<close>

theorem runTaskWithoutDependencies_only_own_witness:
  "runTaskWithoutDependencies tEngine tasks_direct ''A'' hi =
     ([Invoke ''A'' hi tEngine []], Inr (Fulfilled (VStr ''hi''))) \<and>
   runTaskWithoutDependencies tEngine [''A'' \<mapsto> leaf (asserting tEngine)] ''A'' hi =
     runTaskWithoutDependencies tEngine tasks_direct ''A'' hi"
proof -
  let ?tA = "\<lparr>run = asserting tEngine,
              dependencies = [DepSpec ''B'' (Some [''age'' \<mapsto> VNum 34]), DepName ''C'']\<rparr>"
  have A: "tasks_direct ''A'' = Some ?tA"
    by (simp add: tasks_direct_def)
  have A': "[''A'' \<mapsto> leaf (asserting tEngine)] ''A'' = Some (?tA\<lparr>dependencies := []\<rparr>)"
    by (simp add: leaf_def)
  have ok: "settle (run ?tA hi tEngine []) = Fulfilled (VStr ''hi'')"
    by (simp add: asserting_def hi_def)
  note own = runTaskWithoutDependencies_only_own
         [where tasks = tasks_direct and taskName = "''A''" and opts = hi and engine = tEngine,
          OF A]
  from own ok
  have "runTaskWithoutDependencies tEngine tasks_direct ''A'' hi =
          ([Invoke ''A'' hi tEngine []], Inr (Fulfilled (VStr ''hi'')))"
    by simp
  moreover
  from own [THEN conjunct2, rule_format,
            where tasks' = "[''A'' \<mapsto> leaf (asserting tEngine)]" and ds = "[]", OF A']
  have "runTaskWithoutDependencies tEngine [''A'' \<mapsto> leaf (asserting tEngine)] ''A'' hi =
          runTaskWithoutDependencies tEngine tasks_direct ''A'' hi" .
  ultimately show ?thesis by simp
qed

section \<open>Claims about options\<close>

text \<open>
  Claim C4. Let a registered task have the dependencies \<open>pre @ d # post\<close>, let the
  dependencies before \<open>d\<close> resolve, and let \<open>d\<close> name a registered task. Then, whatever
  \<open>d\<close> and the later dependencies do:

  \<^item> right after the runs of the earlier dependencies comes the run of \<open>d\<close>'s task under
    the options \<open>depOptions opts d\<close>, which starts with the call
    \<^verbatim>\<open>this.runTask(d.task, depOptions)\<close>;
  \<^item> these options are the specification's merge of the inherited options \<open>opts\<close> and
    \<open>d\<close>'s override, in which the override's keys take precedence, and they are \<open>opts\<close>
    itself when \<open>d\<close> carries no override;
  \<^item> when \<open>d\<close> and the later dependencies resolve as well, the whole run is the call,
    the runs of the dependencies in declaration order, each under the merge of \<open>opts\<close> and
    its own override, and the invocation of the task's own function with \<open>opts\<close> itself,
    the engine and the results.

  So the options a dependency is resolved with come from \<open>opts\<close> and its own override
  alone: an override reaches neither a sibling nor the task that declared it. Applied to
  the task of \<open>d\<close> in turn, with \<open>depOptions opts d\<close> as the inherited options, the
  statement covers the descendants of \<open>d\<close>.
\<close>

theorem override_scoped_to_dependency:
  assumes "tasks taskName = Some task"
    and "dependencies task = pre @ d # post"
    and "list_all2 (\<lambda>d s. runTask (Suc n) engine tasks (dep_task d) (depOptions opts d) =
                           (fst s, Some (Fulfilled (snd s)))) pre subs"
    and "canRunTask tasks (dep_task d)"
  shows "prefix (Resolve taskName opts # concat (map fst subs) @
                 fst (runTask (Suc n) engine tasks (dep_task d) (depOptions opts d)))
           (fst (runTask (Suc (Suc n)) engine tasks taskName opts)) \<and>
         prefix [Resolve (dep_task d) (depOptions opts d)]
           (fst (runTask (Suc n) engine tasks (dep_task d) (depOptions opts d))) \<and>
         depOptions opts d = spec_merge opts (dep_options d) \<and>
         (dep_options d = None \<longrightarrow> depOptions opts d = opts) \<and>
         (\<forall>rest.
            list_all2 (\<lambda>d s. runTask (Suc n) engine tasks (dep_task d) (depOptions opts d) =
                              (fst s, Some (Fulfilled (snd s)))) (d # post) rest \<longrightarrow>
            runTask (Suc (Suc n)) engine tasks taskName opts =
              (Resolve taskName opts # concat (map fst (subs @ rest)) @
                 [Invoke taskName opts engine (foldl js_concat [] (map snd (subs @ rest)))],
               Some (settle (run task opts engine
                               (foldl js_concat [] (map snd (subs @ rest)))))))"
proof -
  let ?f = "reducer (runTask (Suc n) engine tasks) tasks opts"
  let ?head = "Resolve taskName opts # concat (map fst subs)"
  let ?sub = "runTask (Suc n) engine tasks (dep_task d) (depOptions opts d)"
  let ?rs = "foldl js_concat [] (map snd subs)"
  have pre: "foldl ?f ([Resolve taskName opts], Some (Fulfilled [])) pre =
             (?head, Some (Fulfilled ?rs))"
    using foldl_reducer_resolved
            [OF resolved_registered [OF assms(3)], of "[Resolve taskName opts]" "[]"]
    by (simp del: runTask.simps)
  obtain tr1 p1 where c1: "then_runTask (?head, Some (Fulfilled ?rs)) ?sub = (tr1, p1)"
    by (cases "then_runTask (?head, Some (Fulfilled ?rs)) ?sub")
  have tr1: "tr1 = ?head @ fst ?sub"
    using then_runTask_fst [of ?head "Some (Fulfilled ?rs)" ?sub] c1 by simp
  obtain tr2 p2 where c2: "foldl ?f (tr1, p1) post = (tr2, p2)"
    by (cases "foldl ?f (tr1, p1) post")
  have "prefix tr1 tr2"
    using foldl_reducer_prefix [of tr1 "runTask (Suc n) engine tasks" tasks opts p1 post] c2
    by simp
  moreover have "prefix tr2 (fst (then_run (tr2, p2) taskName task opts engine))"
    by (rule then_run_prefix)
  moreover have "runTask (Suc (Suc n)) engine tasks taskName opts =
                 then_run (tr2, p2) taskName task opts engine"
    using assms(1,2,4) pre c1 c2
    by (simp add: runTask_Suc_registered reducer_def del: runTask.simps)
  ultimately have run: "prefix (?head @ fst ?sub)
                          (fst (runTask (Suc (Suc n)) engine tasks taskName opts))"
    using tr1 by (simp add: prefix_order.trans)
  have all: "runTask (Suc (Suc n)) engine tasks taskName opts =
              (Resolve taskName opts # concat (map fst (subs @ rest)) @
                 [Invoke taskName opts engine (foldl js_concat [] (map snd (subs @ rest)))],
               Some (settle (run task opts engine
                               (foldl js_concat [] (map snd (subs @ rest))))))"
    if rest: "list_all2 (\<lambda>d s. runTask (Suc n) engine tasks (dep_task d) (depOptions opts d) =
                              (fst s, Some (Fulfilled (snd s)))) (d # post) rest" for rest
  proof -
    from assms(3) rest
    have "list_all2 (\<lambda>d s. runTask (Suc n) engine tasks (dep_task d) (depOptions opts d) =
                            (fst s, Some (Fulfilled (snd s)))) (pre @ d # post) (subs @ rest)"
      by (rule list_all2_appendI)
    with assms(2)
    have "list_all2 (\<lambda>d s. runTask (Suc n) engine tasks (dep_task d) (depOptions opts d) =
                            (fst s, Some (Fulfilled (snd s)))) (dependencies task) (subs @ rest)"
      by simp
    from runTask_all_resolved [OF assms(1) this] show ?thesis .
  qed
  from run runTask_starts [of "dep_task d" "depOptions opts d" n engine tasks] all
  show ?thesis
    by (simp add: depOptions_spec_merge [symmetric] depOptions_no_override
          del: runTask.simps)
qed

text \<open>
  The theorem at the sibling \<^verbatim>\<open>C\<close> of \<^verbatim>\<open>{ task: 'B', options: { age: 34 } }\<close>, under the
  options \<^verbatim>\<open>{ message: 'hi' }\<close>: \<^verbatim>\<open>B\<close> is resolved and invoked with
  \<^verbatim>\<open>{ message: 'hi', age: 34 }\<close>, then \<^verbatim>\<open>C\<close> with \<^verbatim>\<open>{ message: 'hi' }\<close>, then \<^verbatim>\<open>A\<close> with
  \<^verbatim>\<open>{ message: 'hi' }\<close>.
\<close>

theorem override_scoped_to_dependency_witness:
  "prefix [Resolve ''A'' hi,
           Resolve ''B'' (hi(''age'' \<mapsto> VNum 34)),
           Invoke ''B'' (hi(''age'' \<mapsto> VNum 34)) tEngine [],
           Resolve ''C'' hi, Invoke ''C'' hi tEngine []]
          (fst (runTask 2 tEngine tasks_override ''A'' hi)) \<and>
   runTask 2 tEngine tasks_override ''A'' hi =
     ([Resolve ''A'' hi,
       Resolve ''B'' (hi(''age'' \<mapsto> VNum 34)),
       Invoke ''B'' (hi(''age'' \<mapsto> VNum 34)) tEngine [],
       Resolve ''C'' hi, Invoke ''C'' hi tEngine [],
       Invoke ''A'' hi tEngine [VStr ''B'', VStr ''C'']],
      Some (Fulfilled (VArr [VStr ''B'', VStr ''C'']))) \<and>
   depOptions hi (DepName ''C'') = hi"
proof -
  let ?dB = "DepSpec ''B'' (Some [''age'' \<mapsto> VNum 34])"
  let ?tA = "\<lparr>run = collecting, dependencies = [?dB, DepName ''C'']\<rparr>"
  let ?hiB = "hi(''age'' \<mapsto> VNum 34)"
  have A: "tasks_override ''A'' = Some ?tA"
    by (simp add: tasks_override_def)
  have deps: "dependencies ?tA = [?dB] @ DepName ''C'' # []"
    by simp
  have optsB: "depOptions hi ?dB = ?hiB"
    by (simp add: depOptions_DepSpec)
  have B: "runTask (Suc 0) tEngine tasks_override ''B'' ?hiB =
           ([Resolve ''B'' ?hiB, Invoke ''B'' ?hiB tEngine []], Some (Fulfilled (VStr ''B'')))"
    by (simp add: tasks_override_def leaf_def returning_def)
  have C: "runTask (Suc 0) tEngine tasks_override ''C'' hi =
           ([Resolve ''C'' hi, Invoke ''C'' hi tEngine []], Some (Fulfilled (VStr ''C'')))"
    by (simp add: tasks_override_def leaf_def returning_def)
  have pre: "list_all2
               (\<lambda>d s. runTask (Suc 0) tEngine tasks_override (dep_task d) (depOptions hi d) =
                      (fst s, Some (Fulfilled (snd s))))
               [?dB] [([Resolve ''B'' ?hiB, Invoke ''B'' ?hiB tEngine []], VStr ''B'')]"
    by (simp add: optsB B del: runTask.simps)
  have rest: "list_all2
               (\<lambda>d s. runTask (Suc 0) tEngine tasks_override (dep_task d) (depOptions hi d) =
                      (fst s, Some (Fulfilled (snd s))))
               (DepName ''C'' # []) [([Resolve ''C'' hi, Invoke ''C'' hi tEngine []], VStr ''C'')]"
    by (simp add: depOptions_DepName C del: runTask.simps)
  have reg: "canRunTask tasks_override (dep_task (DepName ''C''))"
    by (simp add: canRunTask_def tasks_override_def)
  note scoped = override_scoped_to_dependency [OF A deps pre reg]
  from scoped C
  have "prefix [Resolve ''A'' hi, Resolve ''B'' ?hiB, Invoke ''B'' ?hiB tEngine [],
                Resolve ''C'' hi, Invoke ''C'' hi tEngine []]
          (fst (runTask 2 tEngine tasks_override ''A'' hi))"
    by (simp add: depOptions_DepName numeral_2_eq_2 del: runTask.simps)
  moreover
  from scoped [THEN conjunct2, THEN conjunct2, THEN conjunct2, THEN conjunct2,
               rule_format, OF rest]
  have "runTask 2 tEngine tasks_override ''A'' hi =
          ([Resolve ''A'' hi, Resolve ''B'' ?hiB, Invoke ''B'' ?hiB tEngine [],
            Resolve ''C'' hi, Invoke ''C'' hi tEngine [],
            Invoke ''A'' hi tEngine [VStr ''B'', VStr ''C'']],
           Some (Fulfilled (VArr [VStr ''B'', VStr ''C''])))"
    by (simp add: numeral_2_eq_2 collecting_def del: runTask.simps)
  moreover
  from scoped [THEN conjunct2, THEN conjunct2, THEN conjunct2, THEN conjunct1]
  have "depOptions hi (DepName ''C'') = hi"
    by simp
  ultimately show ?thesis by simp
qed

section \<open>Claims about failures\<close>

text \<open>
  Claim C5. Let a task be registered with dependencies \<open>dB # rest\<close> (for the claim,
  \<^verbatim>\<open>[B, C]\<close>), \<open>B\<close> registered, and let the resolution of \<open>B\<close> under its options fail
  with error \<open>e\<close> after the events \<open>trB\<close>. Then the whole call fails with exactly \<open>e\<close>,
  and its trace is the call itself followed by \<open>trB\<close> and nothing else: no resolution of
  a later dependency is started and the task's own function is never invoked.
\<close>

theorem failed_dependency_stops_chain:
  assumes "tasks taskName = Some task"
    and "dependencies task = dB # rest"
    and "canRunTask tasks (dep_task dB)"
    and "runTask n engine tasks (dep_task dB) (depOptions opts dB) = (trB, Some (Rejected e))"
  shows "runTask (Suc n) engine tasks taskName opts =
         (Resolve taskName opts # trB, Some (Rejected e))"
  using assms by (simp add: reducer_def foldl_reducer_Rejected)

text \<open>The theorem at \<^verbatim>\<open>A\<close> with dependencies \<^verbatim>\<open>[B, C]\<close>, where \<^verbatim>\<open>B\<close> throws.\<close>

theorem failed_dependency_stops_chain_witness:
  "canRunTask (tasks_ABC (throwing (Error ''Nope'')) (returning (VStr ''C''))) ''B'' \<and>
   runTask 1 tEngine (tasks_ABC (throwing (Error ''Nope'')) (returning (VStr ''C''))) ''B'' hi =
     ([Resolve ''B'' hi, Invoke ''B'' hi tEngine []], Some (Rejected (Error ''Nope''))) \<and>
   runTask 2 tEngine (tasks_ABC (throwing (Error ''Nope'')) (returning (VStr ''C''))) ''A'' hi =
     ([Resolve ''A'' hi, Resolve ''B'' hi, Invoke ''B'' hi tEngine []],
      Some (Rejected (Error ''Nope'')))"
proof -
  let ?tasks = "tasks_ABC (throwing (Error ''Nope'')) (returning (VStr ''C''))"
  have A: "?tasks ''A'' = Some \<lparr>run = collecting, dependencies = [DepName ''B'', DepName ''C'']\<rparr>"
    by (simp add: tasks_ABC_def)
  have deps: "dependencies \<lparr>run = collecting, dependencies = [DepName ''B'', DepName ''C'']\<rparr> =
              DepName ''B'' # [DepName ''C'']"
    by simp
  have B: "canRunTask ?tasks (dep_task (DepName ''B''))"
    by (simp add: canRunTask_def tasks_ABC_def)
  have run: "runTask 1 tEngine ?tasks (dep_task (DepName ''B'')) (depOptions hi (DepName ''B'')) =
             ([Resolve ''B'' hi, Invoke ''B'' hi tEngine []], Some (Rejected (Error ''Nope'')))"
    by (simp add: tasks_ABC_def leaf_def throwing_def depOptions_DepName)
  from failed_dependency_stops_chain [OF A deps B run] B run
  show ?thesis by (simp add: numeral_2_eq_2 depOptions_DepName)
qed

text \<open>
  Claim C6, as amended. Let a registered task have the dependencies \<open>pre @ d # post\<close>,
  let every dependency of \<open>pre\<close> resolve, and let \<open>d\<close> name a task that is not registered.
  Then the call fails with the error \<^verbatim>\<open>Dependent task <name of d> not found\<close>, which
  carries the name of the missing dependency only. The trace is the call itself followed
  by the runs of \<open>pre\<close>: no dependency of \<open>post\<close> is started and the task's own function
  is never invoked.
\<close>

theorem missing_dependency_error:
  assumes "tasks taskName = Some task"
    and "dependencies task = pre @ d # post"
    and "list_all2 (\<lambda>d s. runTask n engine tasks (dep_task d) (depOptions opts d) =
                           (fst s, Some (Fulfilled (snd s)))) pre subs"
    and "\<not> canRunTask tasks (dep_task d)"
  shows "runTask (Suc n) engine tasks taskName opts =
         (Resolve taskName opts # concat (map fst subs),
          Some (Rejected (Error (''Dependent task '' @ dep_task d @ '' not found''))))"
proof -
  have "foldl (reducer (runTask n engine tasks) tasks opts)
               ([Resolve taskName opts], Some (Fulfilled [])) pre =
             ([Resolve taskName opts] @ concat (map fst subs),
              Some (Fulfilled (foldl js_concat [] (map snd subs))))"
    using resolved_registered [OF assms(3)] by (rule foldl_reducer_resolved)
  with assms(1,2,4) show ?thesis
    by (simp add: reducer_def foldl_reducer_Rejected)
qed

text \<open>
  The theorem at \<^verbatim>\<open>P\<close> with dependencies \<^verbatim>\<open>[B, D, C]\<close>, where \<^verbatim>\<open>D\<close> is missing: \<^verbatim>\<open>B\<close>
  runs, \<^verbatim>\<open>C\<close> and \<^verbatim>\<open>P\<close> do not.
\<close>

theorem missing_dependency_error_witness:
  "\<not> canRunTask (tasks_gap (returning (VStr ''B''))) ''D'' \<and>
   runTask 2 tEngine (tasks_gap (returning (VStr ''B''))) ''P'' hi =
     ([Resolve ''P'' hi, Resolve ''B'' hi, Invoke ''B'' hi tEngine []],
      Some (Rejected (Error ''Dependent task D not found'')))"
proof -
  let ?tasks = "tasks_gap (returning (VStr ''B''))"
  let ?tP = "\<lparr>run = collecting, dependencies = [DepName ''B'', DepName ''D'', DepName ''C'']\<rparr>"
  have P: "?tasks ''P'' = Some ?tP"
    by (simp add: tasks_gap_def)
  have deps: "dependencies ?tP = [DepName ''B''] @ DepName ''D'' # [DepName ''C'']"
    by simp
  have B: "runTask (Suc 0) tEngine ?tasks ''B'' hi =
           ([Resolve ''B'' hi, Invoke ''B'' hi tEngine []], Some (Fulfilled (VStr ''B'')))"
    by (simp add: tasks_gap_def leaf_def returning_def)
  have pre: "list_all2 (\<lambda>d s. runTask (Suc 0) tEngine ?tasks (dep_task d) (depOptions hi d) =
                               (fst s, Some (Fulfilled (snd s))))
               [DepName ''B''] [([Resolve ''B'' hi, Invoke ''B'' hi tEngine []], VStr ''B'')]"
    by (simp add: depOptions_DepName B del: runTask.simps)
  have D: "\<not> canRunTask ?tasks (dep_task (DepName ''D''))"
    by (simp add: canRunTask_def tasks_gap_def)
  from missing_dependency_error [OF P deps pre D] D
  show ?thesis by (simp add: numeral_2_eq_2 del: runTask.simps)
qed

text \<open>
  Claim C6 as stated fails twice. The error names the missing dependency only: \<^verbatim>\<open>build\<close>
  and \<^verbatim>\<open>deploy\<close>, which both depend on the missing \<^verbatim>\<open>lint\<close>, fail with the same error,
  and the name \<^verbatim>\<open>build\<close> occurs nowhere in its message. And the call does not fail with
  that error when an earlier dependency fails first: with \<^verbatim>\<open>B\<close> throwing before the
  missing \<^verbatim>\<open>D\<close>, the call fails with the error of \<^verbatim>\<open>B\<close>.
\<close>

theorem missing_dependency_error_omits_parent:
  "runTask 1 tEngine tasks_missing ''build'' hi =
     ([Resolve ''build'' hi], Some (Rejected (Error ''Dependent task lint not found''))) \<and>
   runTask 1 tEngine tasks_missing ''deploy'' hi =
     ([Resolve ''deploy'' hi], Some (Rejected (Error ''Dependent task lint not found''))) \<and>
   \<not> sublist ''build'' ''Dependent task lint not found'' \<and>
   runTask 2 tEngine (tasks_gap (throwing (Error ''Nope''))) ''P'' hi =
     ([Resolve ''P'' hi, Resolve ''B'' hi, Invoke ''B'' hi tEngine []],
      Some (Rejected (Error ''Nope'')))"
  by (simp add: numeral_2_eq_2 tasks_missing_def tasks_gap_def reducer_def canRunTask_def
        sublist_Cons_right depOptions_DepName leaf_def throwing_def)

section \<open>The diamond\<close>

text \<open>
  Claim C8, as amended. Let \<open>a\<close> depend on \<open>[dB, dC]\<close>, let the tasks of \<open>dB\<close> and \<open>dC\<close>
  each have a single dependency on the task \<open>dn\<close>, which has no dependencies, and let the
  branch of \<open>dB\<close> resolve: the first run of the function of \<open>dn\<close> fulfills, and so does
  the function of \<open>dB\<close>'s task. Then the call comes back, and the function of \<open>dn\<close> is
  invoked exactly twice, first with the options merged along the branch of \<open>dB\<close>, then
  with those merged along the branch of \<open>dC\<close>; nothing is kept from the first run for the
  second.
\<close>

theorem diamond_runs_shared_dependency_twice:
  assumes A: "tasks a = Some tA" "dependencies tA = [dB, dC]"
    and B: "tasks (dep_task dB) = Some tB" "dependencies tB = [dBD]"
    and C: "tasks (dep_task dC) = Some tC" "dependencies tC = [dCD]"
    and D: "dep_task dBD = dn" "dep_task dCD = dn" "tasks dn = Some tD" "dependencies tD = []"
    and okD: "settle (run tD (depOptions (depOptions opts dB) dBD) engine []) = Fulfilled vD"
    and okB: "settle (run tB (depOptions opts dB) engine (js_concat [] vD)) = Fulfilled vB"
  shows "\<exists>out. apfst (filter (invokes dn))
                 (runTask (Suc (Suc (Suc n))) engine tasks a opts) =
               ([Invoke dn (depOptions (depOptions opts dB) dBD) engine [],
                 Invoke dn (depOptions (depOptions opts dC) dCD) engine []],
                Some out)"
proof -
  let ?oB = "depOptions opts dB" and ?oC = "depOptions opts dC"
  let ?oBD = "depOptions (depOptions opts dB) dBD" and ?oCD = "depOptions (depOptions opts dC) dCD"
  have neq: "a \<noteq> dn" "dep_task dB \<noteq> dn" "dep_task dC \<noteq> dn"
    using A B C D by auto
  have regD: "canRunTask tasks dn" "canRunTask tasks (dep_task dB)" "canRunTask tasks (dep_task dC)"
    using B C D by (simp_all add: canRunTask_def)
  have runD: "runTask (Suc n) engine tasks dn o' =
              ([Resolve dn o', Invoke dn o' engine []], Some (settle (run tD o' engine [])))" for o'
    using D by (simp add: runTask_Suc_registered del: runTask.simps)
  have runB: "runTask (Suc (Suc n)) engine tasks (dep_task dB) ?oB =
              ([Resolve (dep_task dB) ?oB, Resolve dn ?oBD, Invoke dn ?oBD engine [],
                Invoke (dep_task dB) ?oB engine (js_concat [] vD)], Some (Fulfilled vB))"
    using B D regD okD okB
    by (simp add: runTask_Suc_registered reducer_def runD del: runTask.simps)
  obtain trC outC
    where runC: "runTask (Suc (Suc n)) engine tasks (dep_task dC) ?oC = (trC, Some outC)"
      and trC: "filter (invokes dn) trC = [Invoke dn ?oCD engine []]"
  proof (cases "settle (run tD ?oCD engine [])")
    case (Fulfilled v)
    with C D regD neq
    have "runTask (Suc (Suc n)) engine tasks (dep_task dC) ?oC =
          ([Resolve (dep_task dC) ?oC, Resolve dn ?oCD, Invoke dn ?oCD engine [],
            Invoke (dep_task dC) ?oC engine (js_concat [] v)],
           Some (settle (run tC ?oC engine (js_concat [] v))))"
      by (simp add: runTask_Suc_registered reducer_def runD del: runTask.simps)
    with neq that show ?thesis by simp
  next
    case (Rejected e)
    with C D regD neq
    have "runTask (Suc (Suc n)) engine tasks (dep_task dC) ?oC =
          ([Resolve (dep_task dC) ?oC, Resolve dn ?oCD, Invoke dn ?oCD engine []],
           Some (Rejected e))"
      by (simp add: runTask_Suc_registered reducer_def runD del: runTask.simps)
    with neq that show ?thesis by simp
  next
    case Pending
    with C D regD neq
    have "runTask (Suc (Suc n)) engine tasks (dep_task dC) ?oC =
          ([Resolve (dep_task dC) ?oC, Resolve dn ?oCD, Invoke dn ?oCD engine []],
           Some Pending)"
      by (simp add: runTask_Suc_registered reducer_def runD del: runTask.simps)
    with neq that show ?thesis by simp
  qed
  have chain: "foldl (reducer (runTask (Suc (Suc n)) engine tasks) tasks opts)
                 ([Resolve a opts], Some (Fulfilled [])) [dB, dC] =
               then_runTask
                 ([Resolve a opts, Resolve (dep_task dB) ?oB, Resolve dn ?oBD,
                   Invoke dn ?oBD engine [], Invoke (dep_task dB) ?oB engine (js_concat [] vD)],
                  Some (Fulfilled (js_concat [] vB)))
                 (trC, Some outC)"
    using regD runB runC by (simp add: reducer_def del: runTask.simps)
  have "runTask (Suc (Suc (Suc n))) engine tasks a opts =
        then_run (then_runTask
                 ([Resolve a opts, Resolve (dep_task dB) ?oB, Resolve dn ?oBD,
                   Invoke dn ?oBD engine [], Invoke (dep_task dB) ?oB engine (js_concat [] vD)],
                  Some (Fulfilled (js_concat [] vB)))
                 (trC, Some outC)) a tA opts engine"
    using A chain by (simp add: runTask_Suc_registered del: runTask.simps)
  then show ?thesis
    using neq trC by (cases outC) simp_all
qed

text \<open>
  The theorem at the diamond whose \<^verbatim>\<open>D\<close> returns \<^verbatim>\<open>'D'\<close>: two invocations, one with
  \<^verbatim>\<open>{ side: 'left' }\<close> and one with \<^verbatim>\<open>{ side: 'right' }\<close>.
\<close>

theorem diamond_runs_shared_dependency_twice_witness:
  "apfst (filter (invokes ''D''))
     (runTask 3 tEngine (diamond (returning (VStr ''D''))) ''A'' Map.empty) =
   ([Invoke ''D'' [''side'' \<mapsto> VStr ''left''] tEngine [],
     Invoke ''D'' [''side'' \<mapsto> VStr ''right''] tEngine []],
    Some (Fulfilled (VArr [VStr ''D'', VStr ''D''])))"
proof -
  let ?tasks = "diamond (returning (VStr ''D''))"
  let ?dBD = "DepSpec ''D'' (Some [''side'' \<mapsto> VStr ''left''])"
  let ?dCD = "DepSpec ''D'' (Some [''side'' \<mapsto> VStr ''right''])"
  let ?tA = "\<lparr>run = collecting, dependencies = [DepName ''B'', DepName ''C'']\<rparr>"
  let ?tB = "\<lparr>run = collecting, dependencies = [?dBD]\<rparr>"
  let ?tC = "\<lparr>run = collecting, dependencies = [?dCD]\<rparr>"
  let ?tD = "leaf (returning (VStr ''D''))"
  have A: "?tasks ''A'' = Some ?tA" "dependencies ?tA = [DepName ''B'', DepName ''C'']"
    by (simp_all add: diamond_def)
  have B: "?tasks (dep_task (DepName ''B'')) = Some ?tB" "dependencies ?tB = [?dBD]"
    by (simp_all add: diamond_def)
  have C: "?tasks (dep_task (DepName ''C'')) = Some ?tC" "dependencies ?tC = [?dCD]"
    by (simp_all add: diamond_def)
  have D: "dep_task ?dBD = ''D''" "dep_task ?dCD = ''D''" "?tasks ''D'' = Some ?tD"
      "dependencies ?tD = []"
    by (simp_all add: diamond_def leaf_def)
  have okD: "settle (run ?tD (depOptions (depOptions Map.empty (DepName ''B'')) ?dBD) tEngine []) =
             Fulfilled (VStr ''D'')"
    by (simp add: leaf_def returning_def)
  have okB: "settle (run ?tB (depOptions Map.empty (DepName ''B'')) tEngine
                       (js_concat [] (VStr ''D''))) =
             Fulfilled (VArr [VStr ''D''])"
    by (simp add: collecting_def)
  have out: "snd (runTask (Suc (Suc (Suc 0))) tEngine ?tasks ''A'' Map.empty) =
             Some (Fulfilled (VArr [VStr ''D'', VStr ''D'']))"
    by (simp add: diamond_def reducer_def canRunTask_def depOptions_DepName depOptions_DepSpec
          leaf_def returning_def collecting_def)
  from diamond_runs_shared_dependency_twice [OF A B C D okD okB, of 0]
  obtain out' where
    "apfst (filter (invokes ''D'')) (runTask (Suc (Suc (Suc 0))) tEngine ?tasks ''A'' Map.empty) =
       ([Invoke ''D'' (depOptions (depOptions Map.empty (DepName ''B'')) ?dBD) tEngine [],
         Invoke ''D'' (depOptions (depOptions Map.empty (DepName ''C'')) ?dCD) tEngine []],
        Some out')"
    by blast
  with out show ?thesis
    by (cases "runTask (Suc (Suc (Suc 0))) tEngine ?tasks ''A'' Map.empty")
       (simp add: numeral_3_eq_3 depOptions_DepName depOptions_DepSpec del: runTask.simps)
qed

text \<open>
  Claim C8 as stated fails when the branch of \<^verbatim>\<open>B\<close> fails: in the diamond whose \<^verbatim>\<open>D\<close>
  throws, the function of \<^verbatim>\<open>D\<close> is invoked once, under \<^verbatim>\<open>B\<close>, and the call fails with
  its error before the branch of \<^verbatim>\<open>C\<close> is started.
\<close>

theorem diamond_failing_dependency_runs_once:
  "apfst (filter (invokes ''D''))
     (runTask 3 tEngine (diamond (throwing (Error ''Nope''))) ''A'' Map.empty) =
   ([Invoke ''D'' [''side'' \<mapsto> VStr ''left''] tEngine []], Some (Rejected (Error ''Nope'')))"
  by (simp add: numeral_3_eq_3 diamond_def reducer_def canRunTask_def depOptions_DepName
        depOptions_DepSpec leaf_def throwing_def foldl_reducer_Rejected)

section \<open>Claims about addTask\<close>

text \<open>
  For a function, \<^verbatim>\<open>addTask\<close> writes the entry under the explicit name, or under the
  function's own name when no name (or an array) was passed, and throws when both are
  empty. For any other value that is neither \<^verbatim>\<open>null\<close> nor \<^verbatim>\<open>undefined\<close> it throws
  \<^verbatim>\<open>Task must be a function\<close>.
\<close>

lemma addTask_TFunction:
  "addTask (TFunction nm f) taskName deps0 tasks =
     (let name = (case taskName of NString s \<Rightarrow> if s = [] then nm else s | _ \<Rightarrow> nm);
          deps = (case taskName of
                    NArray ds \<Rightarrow> ds
                  | _ \<Rightarrow> (case deps0 of None \<Rightarrow> [] | Some ds \<Rightarrow> ds))
      in if name = [] then
           Inl (Error (''Task function must be a named function or '' @
                       ''an explicit task name must be passed in''))
         else Inr (tasks(name \<mapsto> \<lparr>run = f, dependencies = deps\<rparr>)))"
  by (cases taskName) (simp_all add: addTask_def)

lemma addTask_TOther:
  "addTask (TOther nm) taskName deps0 tasks = Inl (Error ''Task must be a function'')"
  by (cases taskName) (simp_all add: addTask_def)

text \<open>
  Claim C9. \<^verbatim>\<open>addTask\<close> should throw one of its two configuration errors whenever the
  first argument is not a function, \<^verbatim>\<open>null\<close> and absent arguments included. It reads
  \<^verbatim>\<open>task.name\<close> before it tests \<^verbatim>\<open>typeof task\<close>: for \<^verbatim>\<open>null\<close> or \<^verbatim>\<open>undefined\<close> without
  an explicit name, the read throws a \<^verbatim>\<open>TypeError\<close> and the test with its error
  \<^verbatim>\<open>Task must be a function\<close> is never reached; with an explicit name it is.
\<close>

theorem addTask_null_TypeError:
  "addTask TNull NUndefined None Map.empty =
     Inl (TypeError ''Cannot read property name of null'') \<and>
   addTask TUndefined NUndefined None Map.empty =
     Inl (TypeError ''Cannot read property name of undefined'') \<and>
   addTask TNull (NArray [DepName ''other'']) None Map.empty =
     Inl (TypeError ''Cannot read property name of null'') \<and>
   addTask TNull (NString ''job'') None Map.empty = Inl (Error ''Task must be a function'')"
  by (simp add: addTask_def)

end
